theory Spec2Isabelle
  imports Main
begin

section \<open>The matcher of an HRE pattern (\<open>Pattern.Find\<close>)\<close>

text \<open>
  A Go \<open>string\<close> is a sequence of bytes and is indexed by byte, so a word is a
  \<^typ>\<open>string\<close> (a list of \<^typ>\<open>char\<close>, each one byte) and an index is an
  \<^typ>\<open>int\<close>, as Go's \<open>int\<close> is signed. The indices that occur are positions inside
  the word, so no sum or difference below leaves the range of a machine \<open>int\<close>.

  The two compiled expressions of a \<open>Pattern\<close> belong to Go's \<open>regexp\<close> package.
  \<open>Find\<close> uses them through \<open>FindStringSubmatchIndex\<close> only, so each one is
  modelled by that method: a function from the searched text to the list of
  indices \<open>[m0, m1, g1s, g1e, g2s, g2e, ...]\<close>, empty when nothing matches.
\<close>

type_synonym regexp = "string \<Rightarrow> int list"

record pattern =
  expr :: string
  re :: regexp
  neg :: regexp
  letters :: "string list"
  usedVars :: "string list list"

text \<open>
  The ways in which the body of \<open>Find\<close> and \<open>Replace\<close> can panic: the explicit
  \<open>panic(fmt.Errorf("unexpected submatches: %v", m))\<close>, and the run-time panics of an
  index or a slice expression out of range and of \<open>strings.Repeat\<close> with a negative
  count.
\<close>

datatype error =
    UnexpectedSubmatches "int list"
  | IndexOutOfRange
  | SliceBoundsOutOfRange
  | NegativeRepeatCount

text \<open>\<open>s[lo:hi]\<close> on a string: it panics unless \<open>0 \<le> lo \<le> hi \<le> len(s)\<close>.\<close>

definition slice :: "string \<Rightarrow> int \<Rightarrow> int \<Rightarrow> error + string" where
  "slice s lo hi =
     (if 0 \<le> lo \<and> lo \<le> hi \<and> hi \<le> int (length s)
      then Inr (take (nat (hi - lo)) (drop (nat lo) s))
      else Inl SliceBoundsOutOfRange)"

text \<open>
  \<open>erased := strings.Repeat(".", offset) + word[offset:]\<close>. The left operand is
  evaluated first, so a negative offset panics in \<open>Repeat\<close>.
\<close>

definition erase :: "string \<Rightarrow> int \<Rightarrow> error + string" where
  "erase word offset =
     (if offset < 0 then Inl NegativeRepeatCount
      else if int (length word) < offset then Inl SliceBoundsOutOfRange
      else Inr (replicate (nat offset) (CHR ''.'') @ drop (nat offset) word))"

text \<open>
  \<open>start := m[5]; if start == -1 { start = m[0] }\<close> and
  \<open>stop := m[len(m)-4]; if stop == -1 { stop = m[1] }\<close>, read where \<open>len(m) \<ge> 10\<close>.
\<close>

definition match_start :: "int list \<Rightarrow> int" where
  "match_start m = (if m ! 5 = - 1 then m ! 0 else m ! 5)"

definition match_stop :: "int list \<Rightarrow> int" where
  "match_stop m = (if m ! (length m - 4) = - 1 then m ! 1 else m ! (length m - 4))"

text \<open>\<open>match := append([]int{start, stop}, m[6:len(m)-4]...)\<close>.\<close>

definition make_match :: "int list \<Rightarrow> int list" where
  "make_match m = [match_start m, match_stop m] @ take (length m - 10) (drop 6 m)"

text \<open>
  One pass through the body of the \<open>for\<close> loop of \<open>Find\<close>, from the values of
  \<open>matches\<close> and \<open>offset\<close> at its start: the loop is left by \<open>break\<close>, it
  panics, or it goes round again with new values of \<open>matches\<close> and \<open>offset\<close>.
\<close>

datatype step = Break | Panic error | Continue "int list list" int

definition find_step :: "pattern \<Rightarrow> string \<Rightarrow> int list list \<Rightarrow> int \<Rightarrow> step" where
  "find_step p word matches offset =
     (case erase word offset of
        Inl e \<Rightarrow> Panic e
      | Inr erased \<Rightarrow>
          let m = re p erased in
          if length m = 0 then Break
          else if length m < 2 then Panic IndexOutOfRange
          else if m ! 1 - m ! 0 = 0 then Break
          else if length m < 10 then Panic (UnexpectedSubmatches m)
          else
            (case slice erased (m ! 0) (m ! 1) of
               Inl e \<Rightarrow> Panic e
             | Inr highlight \<Rightarrow>
                 let negM = neg p highlight in
                 if length negM = 0 then Continue (matches @ [make_match m]) (match_stop m)
                 else if length negM < 2 then Panic IndexOutOfRange
                 else Continue matches (m ! 0 + negM ! 1)))"

text \<open>
  The loop \<open>for n < 0 || len(matches) < n { ... }\<close>. Nothing in the body bounds the
  number of rounds, so the loop is a partial function: \<open>None\<close> is a run that never
  returns, \<open>Some (Inl e)\<close> a panic, \<open>Some (Inr matches)\<close> the returned list.
\<close>

partial_function (option) find_loop ::
  "pattern \<Rightarrow> string \<Rightarrow> int \<Rightarrow> int list list \<Rightarrow> int \<Rightarrow> (error + int list list) option"
where
  "find_loop p word n matches offset =
     (if n < 0 \<or> int (length matches) < n then
        (case find_step p word matches offset of
           Break \<Rightarrow> Some (Inr matches)
         | Panic e \<Rightarrow> Some (Inl e)
         | Continue matches' offset' \<Rightarrow> find_loop p word n matches' offset')
      else Some (Inr matches))"

declare find_loop.simps [code]

definition Find :: "pattern \<Rightarrow> string \<Rightarrow> int \<Rightarrow> (error + int list list) option" where
  "Find p word n = find_loop p word n [] 0"

section \<open>The replacer (\<open>Pattern.Replace\<close>)\<close>

text \<open>
  The type \<open>RPattern\<close> and its method \<open>Interpolate\<close> are declared elsewhere in the
  package, so the type is a type variable \<open>'rp\<close> and the method a parameter
  \<open>interpolate\<close> of the model, called as \<open>rp.Interpolate(p, word, m)\<close>.

  \<open>fmt.Println(start, stop, rp)\<close> writes one line to standard output. The line is
  kept by its three operands, and standard output is the list of the lines written
  so far; it is part of the result, also when the call panics afterwards.
\<close>

datatype 'rp line = Println int int 'rp

text \<open>
  The loop \<open>for _, m := range p.Find(word, n) { ... }\<close> over the list that \<open>Find\<close>
  returned, with the variables \<open>buf\<close> and \<open>offset\<close> and standard output passed
  along. \<open>m[0]\<close> and \<open>m[1]\<close> panic on a match with fewer than two entries,
  \<open>word[offset:start]\<close> unless \<open>0 \<le> offset \<le> start \<le> len(word)\<close>, and
  \<open>rpatterns[0]\<close> on an empty list.
\<close>

fun replace_loop ::
  "('rp \<Rightarrow> pattern \<Rightarrow> string \<Rightarrow> int list \<Rightarrow> string) \<Rightarrow> pattern \<Rightarrow> string \<Rightarrow> 'rp list \<Rightarrow>
   int list list \<Rightarrow> string \<Rightarrow> int \<Rightarrow> 'rp line list \<Rightarrow> 'rp line list \<times> (error + string \<times> int)"
where
  "replace_loop interpolate p word rpatterns [] buf offset out = (out, Inr (buf, offset))"
| "replace_loop interpolate p word rpatterns (m # ms) buf offset out =
     (if length m < 2 then (out, Inl IndexOutOfRange)
      else
        let start = m ! 0; stop = m ! 1 in
        (case slice word offset start of
           Inl e \<Rightarrow> (out, Inl e)
         | Inr untouched \<Rightarrow>
             (case rpatterns of
                [] \<Rightarrow> (out, Inl IndexOutOfRange)
              | rp # _ \<Rightarrow>
                  replace_loop interpolate p word rpatterns ms
                    (buf @ untouched @ interpolate rp p word m) stop
                    (out @ [Println start stop rp]))))"

text \<open>
  \<open>Replace\<close>: \<open>None\<close> when \<open>Find\<close> never returns; otherwise the lines written to
  standard output together with the panic or the returned \<open>[]string{buf.String()}\<close>.
\<close>

definition Replace ::
  "('rp \<Rightarrow> pattern \<Rightarrow> string \<Rightarrow> int list \<Rightarrow> string) \<Rightarrow> pattern \<Rightarrow> string \<Rightarrow> 'rp list \<Rightarrow> int \<Rightarrow>
   ('rp line list \<times> (error + string list)) option"
where
  "Replace interpolate p word rpatterns n =
     (case Find p word n of
        None \<Rightarrow> None
      | Some (Inl e) \<Rightarrow> Some ([], Inl e)
      | Some (Inr matches) \<Rightarrow>
          (case replace_loop interpolate p word rpatterns matches [] 0 [] of
             (out, Inl e) \<Rightarrow> Some (out, Inl e)
           | (out, Inr (buf, offset)) \<Rightarrow>
               (case slice word offset (int (length word)) of
                  Inl e \<Rightarrow> Some (out, Inl e)
                | Inr rest \<Rightarrow> Some (out, Inr [buf @ rest]))))"

text \<open>
  The replacer in the words of its description: for each match in order, the
  untouched text of the word between the cursor and the start of the match, then
  the text \<open>f m\<close> given for the match, the cursor moving to the stop of the match;
  at the end the remaining text of the word.
\<close>

fun stitch :: "(int list \<Rightarrow> string) \<Rightarrow> string \<Rightarrow> int \<Rightarrow> int list list \<Rightarrow> string" where
  "stitch f word cursor [] = drop (nat cursor) word"
| "stitch f word cursor (m # ms) =
     take (nat (m ! 0 - cursor)) (drop (nat cursor) word) @ f m @ stitch f word (m ! 1) ms"

text \<open>
  The matches for which no slice expression of \<open>Replace\<close> is out of range: each one
  starts at or after the cursor and inside the word, and the last cursor is inside
  the word.
\<close>

fun spans_in_order :: "string \<Rightarrow> int \<Rightarrow> int list list \<Rightarrow> bool" where
  "spans_in_order word cursor [] \<longleftrightarrow> 0 \<le> cursor \<and> cursor \<le> int (length word)"
| "spans_in_order word cursor (m # ms) \<longleftrightarrow>
     2 \<le> length m \<and> 0 \<le> cursor \<and> cursor \<le> m ! 0 \<and> m ! 0 \<le> int (length word)
     \<and> spans_in_order word (m ! 1) ms"

section \<open>The variable expander (\<open>expandVars\<close>)\<close>

text \<open>
  Modelled from the spec: the helper \<open>regex\<close> that compiles \<open>reVar\<close> from the source
  text \<open><(.+?)>\<close> is not among the sources; it is taken to compile the text as
  Go's \<open>regexp\<close> package does, so that \<open>reVar\<close> finds the tokens \<open><name>\<close> of the
  specification.

  The expression \<open><(.+?)>\<close> matches a \<open><\<close>, then one character or more as few as
  possible, none of them a line feed, then a \<open>>\<close>. The bytes of a character
  outside ASCII differ from \<open><\<close>, \<open>>\<close> and the line feed, so the match can be
  computed byte by byte. \<open>scan_lazy\<close> is the lazy repetition after its first
  character: it stops at the first \<open>>\<close> and fails at a line feed or at the end.
\<close>

fun scan_lazy :: "string \<Rightarrow> (string \<times> string) option" where
  "scan_lazy [] = None"
| "scan_lazy (c # cs) =
     (if c = CHR ''>'' then Some ([], cs)
      else if c = CHR 0x0A then None
      else map_option (\<lambda>(body, rest). (c # body, rest)) (scan_lazy cs))"

text \<open>A match of \<open>reVar\<close> that starts at the first byte: the matched text and what follows it.\<close>

definition reVar_prefix :: "string \<Rightarrow> (string \<times> string) option" where
  "reVar_prefix s =
     (case s of
        c1 # c2 # cs \<Rightarrow>
          if c1 = CHR ''<'' \<and> c2 \<noteq> CHR 0x0A
          then map_option (\<lambda>(body, rest). (c1 # c2 # body @ ''>'', rest)) (scan_lazy cs)
          else None
      | _ \<Rightarrow> None)"

text \<open>
  \<open>reVar.ReplaceAllStringFunc(expr, repl)\<close>: the matches are taken from left to
  right without overlap, each one replaced by \<open>repl\<close> of its text, the text between
  them copied. A match of \<open>reVar\<close> is never empty.
\<close>

function ReplaceAllStringFunc :: "string \<Rightarrow> (string \<Rightarrow> string) \<Rightarrow> string" where
  "ReplaceAllStringFunc [] repl = []"
| "ReplaceAllStringFunc (c # cs) repl =
     (case reVar_prefix (c # cs) of
        Some (tok, rest) \<Rightarrow> repl tok @ ReplaceAllStringFunc rest repl
      | None \<Rightarrow> c # ReplaceAllStringFunc cs repl)"
  by pat_completeness auto
termination
proof -
  have scan: "length rest < length s" if "scan_lazy s = Some (body, rest)" for s body rest
    using that by (induction s arbitrary: body) (auto split: if_splits)
  have "length rest < length s" if "reVar_prefix s = Some (tok, rest)" for s tok rest
    using that
    by (auto simp add: reVar_prefix_def split: list.splits if_splits dest: scan)
  then have "length rest < Suc (length cs)"
    if "reVar_prefix (c # cs) = Some (tok, rest)" for c cs tok rest
    using that by fastforce
  then show ?thesis
    by (relation "measure (\<lambda>(s, repl). length s)") auto
qed

text \<open>\<open>strings.Trim(s, cutset)\<close> for a cutset of ASCII characters.\<close>

definition Trim :: "string \<Rightarrow> string \<Rightarrow> string" where
  "Trim s cutset =
     rev (dropWhile (\<lambda>c. c \<in> set cutset) (rev (dropWhile (\<lambda>c. c \<in> set cutset) s)))"

text \<open>
  \<open>getVar\<close>. The variable table is a Go map; a name that is not a key yields the
  \<open>nil\<close> slice, which has no element.
\<close>

definition getVar :: "string \<Rightarrow> (string \<rightharpoonup> string list) \<Rightarrow> string \<times> string list" where
  "getVar varExpr vars =
     (let name = Trim varExpr ''<>'';
          vals = (case vars name of None \<Rightarrow> [] | Some vs \<Rightarrow> vs)
      in (name, vals))"

text \<open>
  \<open>regexp.QuoteMeta\<close> puts a backslash (the byte \<open>0x5C\<close>) before each of the bytes
  \<open>\.+*?()|[]{}^$\<close>.
\<close>

definition special :: "char \<Rightarrow> bool" where
  "special c \<longleftrightarrow> c \<in> set (CHR 0x5C # ''.+*?()|[]{}^$'')"

definition QuoteMeta :: "string \<Rightarrow> string" where
  "QuoteMeta s = concat (map (\<lambda>c. if special c then [CHR 0x5C, c] else [c]) s)"

text \<open>\<open>strings.Join(elems, sep)\<close>.\<close>

fun Join :: "string list \<Rightarrow> string \<Rightarrow> string" where
  "Join [] sep = []"
| "Join [x] sep = x"
| "Join (x # y # ys) sep = x @ sep @ Join (y # ys) sep"

text \<open>
  \<open>expandVars\<close>, its parameter \<open>expr\<close> written \<open>source\<close> here (\<open>expr\<close> is the
  field of the pattern). Its only result is the rewritten expression: the name is
  discarded (\<open>_ = name\<close>) and the values are used for the alternation only.
\<close>

definition expandVars :: "string \<Rightarrow> (string \<rightharpoonup> string list) \<Rightarrow> string" where
  "expandVars source vars =
     ReplaceAllStringFunc source (\<lambda>varExpr.
       let (name, vals) = getVar varExpr vars;
           escapedVals = map QuoteMeta vals
       in ''(?:'' @ Join escapedVals ''|'' @ '')'')"

section \<open>Compiled expressions used in the examples\<close>

text \<open>
  \<open>Find\<close> reads the fields \<open>re\<close> and \<open>neg\<close> of a pattern only. Each pattern below
  is given by these two; \<open>expr\<close> holds a source text where one is evident.
\<close>

text \<open>\<open>strings.Index(s, sub)\<close>: the first position at which \<open>sub\<close> occurs in \<open>s\<close>.\<close>

fun index_of :: "string \<Rightarrow> string \<Rightarrow> nat option" where
  "index_of sub [] = (if sub = [] then Some 0 else None)"
| "index_of sub (c # cs) =
     (if take (length sub) (c # cs) = sub then Some 0
      else map_option Suc (index_of sub cs))"

text \<open>
  What \<open>FindStringSubmatchIndex\<close> returns for the regular expression
  \<open>()(L)B(A)()\<close>, where \<open>L\<close>, \<open>B\<close> and \<open>A\<close> stand for literal texts (every
  metacharacter escaped): the leftmost occurrence of \<open>LBA\<close>, with the four
  bracketing groups the comment in \<open>Find\<close> describes, \<open>(edge)(look)abc(look)(edge)\<close>,
  and no group in the content.
\<close>

definition literal_re :: "string \<Rightarrow> string \<Rightarrow> string \<Rightarrow> regexp" where
  "literal_re L B A s =
     (case index_of (L @ B @ A) s of
        None \<Rightarrow> []
      | Some i \<Rightarrow>
          let m0 = int i; l = m0 + int (length L); b = l + int (length B);
              m1 = b + int (length A)
          in [m0, m1, m0, m0, m0, l, b, m1, m1, m1])"

text \<open>
  The regular expression \<open>$^\<close>, which matches the empty text only. As a negative
  expression it rejects no candidate, since a highlight is never empty.
\<close>

definition paradox_re :: regexp where
  "paradox_re s = (if s = [] then [0, 0] else [])"

text \<open>The regular expression \<open>(L)\<close> for a literal text \<open>L\<close>.\<close>

definition literal_neg :: "string \<Rightarrow> regexp" where
  "literal_neg L s =
     (case index_of L s of
        None \<Rightarrow> []
      | Some i \<Rightarrow> [int i, int i + int (length L), int i, int i + int (length L)])"

text \<open>The pattern \<open>l\<close>: \<open>re\<close> is \<open>()()l()()\<close>, \<open>neg\<close> is \<open>$^\<close>.\<close>

definition pattern_l :: pattern where
  "pattern_l = \<lparr>expr = ''l'', re = literal_re [] ''l'' [], neg = paradox_re,
     letters = [''l''], usedVars = []\<rparr>"

text \<open>
  The pattern of a literal dot: \<open>re\<close> is \<open>()()\.()()\<close>, \<open>neg\<close> is \<open>$^\<close>.
\<close>

definition pattern_dot :: pattern where
  "pattern_dot = \<lparr>expr = [CHR 0x5C, CHR ''.''], re = literal_re [] ''.'' [], neg = paradox_re,
     letters = [''.''], usedVars = []\<rparr>"

text \<open>
  The regular expression with the empty source text: it matches the empty text at
  the start of every text and has no group.
\<close>

definition empty_re :: regexp where
  "empty_re s = [0, 0]"

text \<open>
  A pattern built against the invariant: \<open>re\<close> has the empty source text and no
  bracketing group.
\<close>

definition pattern_no_groups :: pattern where
  "pattern_no_groups = \<lparr>expr = [], re = empty_re, neg = paradox_re,
     letters = [], usedVars = []\<rparr>"

text \<open>The regular expression \<open>L\<close> for a literal text \<open>L\<close>, with no group.\<close>

definition plain_re :: "string \<Rightarrow> regexp" where
  "plain_re L s =
     (case index_of L s of
        None \<Rightarrow> []
      | Some i \<Rightarrow> [int i, int i + int (length L)])"

text \<open>A pattern built against the invariant: \<open>re\<close> is \<open>l\<close>, without the bracketing groups.\<close>

definition pattern_bare_l :: pattern where
  "pattern_bare_l = \<lparr>expr = [], re = plain_re ''l'', neg = paradox_re,
     letters = [''l''], usedVars = []\<rparr>"

text \<open>
  A pattern whose negative expression can match the empty text: \<open>re\<close> is
  \<open>()()l()()\<close>, \<open>neg\<close> has the empty source text.
\<close>

definition pattern_l_veto_empty :: pattern where
  "pattern_l_veto_empty = \<lparr>expr = [], re = literal_re [] ''l'' [], neg = empty_re,
     letters = [''l''], usedVars = []\<rparr>"

text \<open>
  A pattern with a trailing lookahead and a veto, both of literal dots: \<open>re\<close> is
  \<open>()()\.(\.)()\<close>, \<open>neg\<close> is \<open>(\.\.)\<close>.
\<close>

definition pattern_dots_veto :: pattern where
  "pattern_dots_veto = \<lparr>expr = [], re = literal_re [] ''.'' ''.'',
     neg = literal_neg ''..'', letters = [''.''], usedVars = []\<rparr>"

text \<open>A pattern with both lookarounds: \<open>re\<close> is \<open>()(x)a(b)()\<close>, \<open>neg\<close> is \<open>$^\<close>.\<close>

definition pattern_x_a_b :: pattern where
  "pattern_x_a_b = \<lparr>expr = ''{x}a{b}'', re = literal_re ''x'' ''a'' ''b'',
     neg = paradox_re, letters = [''a'', ''b'', ''x''], usedVars = []\<rparr>"

text \<open>
  A replacement rule that is its own replacement text, whatever the match: the
  rule \<open>L\<close> replaces each match by \<open>L\<close>.
\<close>

definition constant_rule :: "string \<Rightarrow> pattern \<Rightarrow> string \<Rightarrow> int list \<Rightarrow> string" where
  "constant_rule rp p word m = rp"

text \<open>The variable table \<open>v = ["a", "bb"]\<close>, \<open>p = ["a.b", "c"]\<close>.\<close>

definition vars_v :: "string \<rightharpoonup> string list" where
  "vars_v = [''v'' \<mapsto> [''a'', ''bb''], ''p'' \<mapsto> [''a.b'', ''c'']]"

section \<open>Properties of the matcher\<close>

subsection \<open>The loop of \<open>Find\<close>\<close>

text \<open>
  The list \<open>matches\<close> is only appended to: a pass of the loop body from any list is
  the pass from the empty list, with what it appends put after the list.
\<close>

lemma find_step_append:
  "find_step p word ms off =
     (case find_step p word [] off of
        Break \<Rightarrow> Break
      | Panic e \<Rightarrow> Panic e
      | Continue ms' off' \<Rightarrow> Continue (ms @ ms') off')"
  by (simp add: find_step_def Let_def split: sum.splits)

text \<open>What a pass that goes round again has done: it accepted or it rejected a candidate.\<close>

lemma find_step_Continue:
  assumes "find_step p word ms off = Continue ms' off'"
  shows "\<exists>erased highlight.
    erase word off = Inr erased \<and> 10 \<le> length (re p erased)
    \<and> re p erased ! 1 - re p erased ! 0 \<noteq> 0
    \<and> slice erased (re p erased ! 0) (re p erased ! 1) = Inr highlight
    \<and> (neg p highlight = [] \<and> ms' = ms @ [make_match (re p erased)]
          \<and> off' = match_stop (re p erased)
        \<or> 2 \<le> length (neg p highlight) \<and> ms' = ms
          \<and> off' = re p erased ! 0 + neg p highlight ! 1)"
  using assms
  by (auto simp add: find_step_def Let_def split: sum.splits if_splits)

text \<open>
  An invariant of the loop holds where the loop is left: a run that returns \<open>r\<close>
  has reached values of \<open>matches\<close> and \<open>offset\<close> that satisfy the invariant and at
  which the loop condition fails, the body breaks or the body panics.
\<close>

lemma find_loop_exit:
  assumes run: "find_loop p word n matches offset = Some r"
    and init: "I matches offset"
    and step: "\<And>ms off ms' off'. I ms off \<Longrightarrow> n < 0 \<or> int (length ms) < n \<Longrightarrow>
      find_step p word ms off = Continue ms' off' \<Longrightarrow> I ms' off'"
  shows "\<exists>ms off. I ms off \<and>
    (if n < 0 \<or> int (length ms) < n
     then find_step p word ms off = Break \<and> r = Inr ms
       \<or> (\<exists>e. find_step p word ms off = Panic e \<and> r = Inl e)
     else r = Inr ms)"
proof -
  let ?Q = "\<lambda>r ms off. I ms off \<and>
    (if n < 0 \<or> int (length ms) < n
     then find_step p word ms off = Break \<and> r = Inr ms
       \<or> (\<exists>e. find_step p word ms off = Panic e \<and> r = Inl e)
     else r = Inr ms)"
  have "p = p \<longrightarrow> word = word \<longrightarrow> n = n \<longrightarrow> I matches offset \<longrightarrow> (\<exists>ms off. ?Q r ms off)"
  proof (rule find_loop.raw_induct [where P = "\<lambda>p' word' n' matches offset r.
      p' = p \<longrightarrow> word' = word \<longrightarrow> n' = n \<longrightarrow> I matches offset \<longrightarrow> (\<exists>ms off. ?Q r ms off)",
      OF _ run], intro impI)
    fix f :: "pattern \<Rightarrow> string \<Rightarrow> int \<Rightarrow> int list list \<Rightarrow> int \<Rightarrow> (error + int list list) option"
      and p' word' n' matches offset r
    assume IH: "\<And>p' word' n' matches offset r. f p' word' n' matches offset = Some r \<Longrightarrow>
        p' = p \<longrightarrow> word' = word \<longrightarrow> n' = n \<longrightarrow> I matches offset \<longrightarrow> (\<exists>ms off. ?Q r ms off)"
      and body: "(if n' < 0 \<or> int (length matches) < n'
        then case find_step p' word' matches offset of
             Break \<Rightarrow> Some (Inr matches) | Panic e \<Rightarrow> Some (Inl e)
             | Continue matches' offset' \<Rightarrow> f p' word' n' matches' offset'
        else Some (Inr matches)) = Some r"
      and eqs: "p' = p" "word' = word" "n' = n" and inv: "I matches offset"
    show "\<exists>ms off. ?Q r ms off"
    proof (cases "n < 0 \<or> int (length matches) < n")
      case False
      with body eqs inv have "?Q r matches offset" by auto
      then show ?thesis by blast
    next
      case True
      show ?thesis
      proof (cases "find_step p word matches offset")
        case Break
        with body eqs inv True have "?Q r matches offset" by auto
        then show ?thesis by blast
      next
        case (Panic e)
        with body eqs inv True have "?Q r matches offset" by auto
        then show ?thesis by blast
      next
        case (Continue matches' offset')
        with body eqs True have "f p word n matches' offset' = Some r" by auto
        moreover from step [OF inv True Continue] have "I matches' offset'" .
        ultimately show ?thesis using IH by blast
      qed
    qed
  qed
  with init show ?thesis by simp
qed

text \<open>
  A run never returns from values at which an invariant holds that keeps the loop
  condition true and makes every pass go round again.
\<close>

lemma find_loop_diverges:
  assumes init: "I matches offset"
    and cond: "\<And>ms off. I ms off \<Longrightarrow> n < 0 \<or> int (length ms) < n"
    and step: "\<And>ms off. I ms off \<Longrightarrow>
      \<exists>ms' off'. find_step p word ms off = Continue ms' off' \<and> I ms' off'"
  shows "find_loop p word n matches offset = None"
proof (cases "find_loop p word n matches offset")
  case None
  then show ?thesis .
next
  case (Some r)
  have "\<exists>ms off. I ms off \<and>
    (if n < 0 \<or> int (length ms) < n
     then find_step p word ms off = Break \<and> r = Inr ms
       \<or> (\<exists>e. find_step p word ms off = Panic e \<and> r = Inl e)
     else r = Inr ms)"
  proof (rule find_loop_exit [OF Some])
    show "I matches offset" by fact
    show "I ms' off'"
      if "I ms off" and "n < 0 \<or> int (length ms) < n"
        and "find_step p word ms off = Continue ms' off'" for ms off ms' off'
      using step [OF that(1)] that(3) by auto
  qed
  then obtain ms off where "I ms off" and ex: "if n < 0 \<or> int (length ms) < n
     then find_step p word ms off = Break \<and> r = Inr ms
       \<or> (\<exists>e. find_step p word ms off = Panic e \<and> r = Inl e)
     else r = Inr ms"
    by blast
  with cond [OF \<open>I ms off\<close>] step [OF \<open>I ms off\<close>] show ?thesis by auto
qed


subsection \<open>The bound \<open>n\<close>\<close>






subsection \<open>Termination and the order of the spans\<close>

lemma pattern_dot_steps:
  "find_step pattern_dot ''a.b'' [] 0 = Continue [[1, 2]] 2"
  "find_step pattern_dot ''a.b'' [] 1 = Continue [[0, 1]] 1"
  "find_step pattern_dot ''a.b'' [] 2 = Continue [[0, 1]] 1"
  by code_simp+

lemma pattern_dot_step:
  "off \<in> {0, 1, 2} \<Longrightarrow> find_step pattern_dot ''a.b'' ms off =
     Continue (ms @ [if off = 0 then [1, 2] else [0, 1]]) (if off = 0 then 2 else 1)"
  by (subst find_step_append) (auto simp add: pattern_dot_steps)

text \<open>
  C2 at the pattern of a literal dot and the word \<open>a.b\<close>, unbounded. The first
  pass accepts the dot at \<open>[1, 2)\<close> and moves the cursor to \<open>2\<close>. The view of the
  next pass is \<open>..b\<close>: the placeholders are dots themselves, the expression
  matches the first one, the span \<open>[0, 1)\<close> is accepted and the cursor goes back
  from \<open>2\<close> to \<open>1\<close>. From there every pass does the same, and \<open>Find\<close> never
  returns.
\<close>

theorem Find_literal_dot_diverges:
  "find_step pattern_dot ''a.b'' [[1, 2]] 2 = Continue [[1, 2], [0, 1]] 1
   \<and> Find pattern_dot ''a.b'' (- 1) = None"
proof
  show "find_step pattern_dot ''a.b'' [[1, 2]] 2 = Continue [[1, 2], [0, 1]] 1"
    by (simp add: pattern_dot_step)
  show "Find pattern_dot ''a.b'' (- 1) = None"
    unfolding Find_def
    by (rule find_loop_diverges [where I = "\<lambda>ms off. off \<in> {0, 1, 2}"])
      (simp_all add: pattern_dot_step)
qed

text \<open>
  C3 at the same pattern and word with the bound \<open>2\<close>: the second span returned
  lies before the first, and it covers position \<open>0\<close>, which is behind the cursor
  and holds the letter \<open>a\<close> in the word.
\<close>

theorem Find_literal_dot_rematch:
  "Find pattern_dot ''a.b'' 2 = Some (Inr [[1, 2], [0, 1]])"
  by code_simp

subsection \<open>Accepted and rejected candidates\<close>

text \<open>
  Every match that \<open>Find\<close> returns was made in a pass of the loop from a candidate
  of the positive expression on the view of that pass, a candidate of non-zero
  width with the groups required, in whose highlight the negative expression
  found nothing.
\<close>

lemma Find_matches_accepted:
  assumes run: "Find p word n = Some (Inr matches)" and mt: "mt \<in> set matches"
  shows "\<exists>off erased highlight.
    erase word off = Inr erased \<and> 10 \<le> length (re p erased)
    \<and> re p erased ! 1 - re p erased ! 0 \<noteq> 0
    \<and> slice erased (re p erased ! 0) (re p erased ! 1) = Inr highlight
    \<and> neg p highlight = [] \<and> mt = make_match (re p erased)"
proof -
  let ?A = "\<lambda>mt. \<exists>off erased highlight.
    erase word off = Inr erased \<and> 10 \<le> length (re p erased)
    \<and> re p erased ! 1 - re p erased ! 0 \<noteq> 0
    \<and> slice erased (re p erased ! 0) (re p erased ! 1) = Inr highlight
    \<and> neg p highlight = [] \<and> mt = make_match (re p erased)"
  let ?r = "Inr matches :: error + int list list"
  define I where "I = (\<lambda>(ms :: int list list) (off :: int). \<forall>mt \<in> set ms. ?A mt)"
  have "\<exists>ms off. I ms off \<and>
    (if n < 0 \<or> int (length ms) < n
     then find_step p word ms off = Break \<and> ?r = Inr ms
       \<or> (\<exists>e. find_step p word ms off = Panic e \<and> ?r = Inl e)
     else ?r = Inr ms)"
  proof (rule find_loop_exit)
    show "find_loop p word n [] 0 = Some (Inr matches)"
      using run by (simp add: Find_def)
    show "I [] 0" by (simp add: I_def)
    show "I ms' off'"
      if inv: "I ms off" and "n < 0 \<or> int (length ms) < n"
        and st: "find_step p word ms off = Continue ms' off'" for ms off ms' off'
    proof -
      from find_step_Continue [OF st] obtain erased highlight where
        e: "erase word off = Inr erased" "10 \<le> length (re p erased)"
          "re p erased ! 1 - re p erased ! 0 \<noteq> 0"
          "slice erased (re p erased ! 0) (re p erased ! 1) = Inr highlight"
        and d: "neg p highlight = [] \<and> ms' = ms @ [make_match (re p erased)]
            \<or> ms' = ms"
        by blast
      from d show ?thesis
      proof
        assume a: "neg p highlight = [] \<and> ms' = ms @ [make_match (re p erased)]"
        with e have "?A (make_match (re p erased))" by blast
        with inv a show ?thesis by (auto simp add: I_def)
      next
        assume "ms' = ms"
        with inv show ?thesis by (simp add: I_def)
      qed
    qed
  qed
  then have "I matches 0" by (auto simp add: I_def split: if_splits)
  with mt show ?thesis unfolding I_def by blast
qed

text \<open>
  C5. The result \<open>m\<close> of the positive expression holds the pair of group \<open>k\<close> at
  \<open>m[2k]\<close>, \<open>m[2k+1]\<close>, and \<open>-1\<close> in both for a group that took no part. The
  leading lookbehind is group 2, the trailing lookahead the last group but one,
  whose pair is at \<open>len(m)-4\<close>, \<open>len(m)-3\<close>. For every match \<open>mt\<close> that \<open>Find\<close>
  returns there is a pass of the loop with the view \<open>erased\<close> and the result \<open>m\<close>
  such that the start \<open>mt[0]\<close> is the end of the lookbehind group if the group
  took part and the start of the raw match if not, and the stop \<open>mt[1]\<close> is the
  start of the lookahead group if the group took part and the end of the raw match
  if not. So the positions that a lookbehind group consumed lie before the reported
  span, and those that a lookahead group consumed lie at or after its stop.
\<close>

theorem Find_semantic_span:
  assumes "Find p word n = Some (Inr matches)" and "mt \<in> set matches"
  shows "\<exists>off erased m.
    erase word off = Inr erased \<and> m = re p erased \<and> 10 \<le> length m
    \<and> mt ! 0 = (if m ! 5 = - 1 then m ! 0 else m ! 5)
    \<and> mt ! 1 = (if m ! (length m - 4) = - 1 then m ! 1 else m ! (length m - 4))
    \<and> (m ! 5 \<noteq> - 1 \<longrightarrow> (\<forall>i. m ! 4 \<le> i \<and> i < m ! 5 \<longrightarrow> i < mt ! 0))
    \<and> (m ! (length m - 4) \<noteq> - 1 \<longrightarrow>
          (\<forall>i. m ! (length m - 4) \<le> i \<and> i < m ! (length m - 3) \<longrightarrow> mt ! 1 \<le> i))"
proof -
  from Find_matches_accepted [OF assms] obtain off erased where
    "erase word off = Inr erased" "10 \<le> length (re p erased)"
    "mt = make_match (re p erased)"
    by blast
  then show ?thesis
    by (intro exI [of _ off] exI [of _ erased] exI [of _ "re p erased"])
      (simp add: make_match_def match_start_def match_stop_def)
qed

text \<open>
  The pattern \<open>()(x)a(b)()\<close> on the word \<open>xab\<close>: the raw match is \<open>[0, 3)\<close>, the
  reported span \<open>[1, 2)\<close> is the letter \<open>a\<close> alone.
\<close>

theorem Find_semantic_span_witness:
  "Find pattern_x_a_b ''xab'' (- 1) = Some (Inr [[1, 2]]) \<and> [1, 2] \<in> set [[1, 2 :: int]]
   \<and> (\<exists>off erased m.
    erase ''xab'' off = Inr erased \<and> m = re pattern_x_a_b erased \<and> 10 \<le> length m
    \<and> [1, 2] ! 0 = (if m ! 5 = - 1 then m ! 0 else m ! 5)
    \<and> [1, 2] ! 1 = (if m ! (length m - 4) = - 1 then m ! 1 else m ! (length m - 4))
    \<and> (m ! 5 \<noteq> - 1 \<longrightarrow> (\<forall>i. m ! 4 \<le> i \<and> i < m ! 5 \<longrightarrow> i < [1, 2] ! 0))
    \<and> (m ! (length m - 4) \<noteq> - 1 \<longrightarrow>
          (\<forall>i. m ! (length m - 4) \<le> i \<and> i < m ! (length m - 3) \<longrightarrow> [1, 2] ! 1 \<le> i)))"
proof -
  have run: "Find pattern_x_a_b ''xab'' (- 1) = Some (Inr [[1, 2]])" by code_simp
  have mem: "[1, 2] \<in> set [[1, 2 :: int]]" by simp
  from Find_semantic_span [OF run mem] run mem show ?thesis by blast
qed

text \<open>
  What a pass does with the answer of the negative expression. The expression is
  asked about the highlight only: the pass is the same for every negative
  expression that answers alike on the highlight. When the answer is a hit, the
  pass leaves the list of matches as it was and sets the cursor to
  \<open>m[0] + negM[1]\<close>.
\<close>

lemma find_step_negative_hit:
  assumes "erase word off = Inr erased" and "m = re p erased" and "10 \<le> length m"
    and "m ! 1 - m ! 0 \<noteq> 0" and "slice erased (m ! 0) (m ! 1) = Inr highlight"
  shows "neg' highlight = neg p highlight \<Longrightarrow>
      find_step (p\<lparr>neg := neg'\<rparr>) word ms off = find_step p word ms off"
    and "2 \<le> length (neg p highlight) \<Longrightarrow>
      find_step p word ms off = Continue ms (m ! 0 + neg p highlight ! 1)"
  using assms by (auto simp add: find_step_def Let_def)

lemma veto_empty_step: "find_step pattern_l_veto_empty ''l'' [] 0 = Continue [] 0"
  by code_simp

lemma pattern_dots_veto_steps:
  "find_step pattern_dots_veto ''a..b'' [] 0 = Continue [] 3"
  "find_step pattern_dots_veto ''a..b'' [] 3 = Continue [] 2"
  "find_step pattern_dots_veto ''a..b'' [] 2 = Continue [] 2"
  by code_simp+

text \<open>
  C4 at two patterns whose candidates are all rejected, with the bound \<open>1\<close>. The
  cursor rule \<open>offset = m[0] + negM[1]\<close> is applied as the claim says, but it is
  not progress. For \<open>()()\.(\.)()\<close> with the negative expression \<open>(\.\.)\<close> on the
  word \<open>a..b\<close>, the first candidate \<open>[1, 3)\<close> is rejected and the cursor goes to
  \<open>3\<close>; the view is then \<open>...b\<close>, the candidate \<open>[0, 2)\<close> lies in the placeholders,
  it is rejected and the cursor goes back from \<open>3\<close> to \<open>2\<close>, where it stays. For
  \<open>()()l()()\<close> with a negative expression that matches the empty text, on the word
  \<open>l\<close>, the candidate \<open>[0, 1)\<close> is rejected with the hit \<open>[0, 0)\<close> and the cursor
  stays at \<open>0 + 0\<close>. In both cases \<open>Find\<close> never returns.
\<close>

theorem Find_rejection_no_progress:
  "find_step pattern_dots_veto ''a..b'' [] 0 = Continue [] 3
   \<and> find_step pattern_dots_veto ''a..b'' [] 3 = Continue [] 2
   \<and> Find pattern_dots_veto ''a..b'' 1 = None
   \<and> neg pattern_l_veto_empty ''l'' = [0, 0]
   \<and> find_step pattern_l_veto_empty ''l'' [] 0 = Continue [] 0
   \<and> Find pattern_l_veto_empty ''l'' 1 = None"
proof (intro conjI)
  show "find_step pattern_dots_veto ''a..b'' [] 0 = Continue [] 3"
    and "find_step pattern_dots_veto ''a..b'' [] 3 = Continue [] 2"
    by (rule pattern_dots_veto_steps)+
  show "Find pattern_dots_veto ''a..b'' 1 = None"
    unfolding Find_def
    by (rule find_loop_diverges [where I = "\<lambda>ms off. ms = [] \<and> off \<in> {0, 2, 3}"])
      (auto simp add: pattern_dots_veto_steps)
  show "neg pattern_l_veto_empty ''l'' = [0, 0]"
    by (simp add: pattern_l_veto_empty_def empty_re_def)
  show "find_step pattern_l_veto_empty ''l'' [] 0 = Continue [] 0"
    by (rule veto_empty_step)
  show "Find pattern_l_veto_empty ''l'' 1 = None"
    unfolding Find_def
    by (rule find_loop_diverges [where I = "\<lambda>ms off. ms = [] \<and> off = 0"])
      (simp_all add: veto_empty_step)
qed

subsection \<open>The check of the groups\<close>

text \<open>
  C8, as the code has it. The test for the end of the scan comes before the check
  of the groups. In a pass of the loop, at any values of \<open>matches\<close> and \<open>offset\<close>
  for which the loop condition holds: a result of the positive expression of
  non-zero width with at least one pair and fewer than five makes \<open>Find\<close> panic
  with that result; a result that is empty or of zero width ends the scan and
  \<open>Find\<close> returns the matches collected, however many pairs it has. And when the
  positive expression has its four bracketing groups, so that every result is empty
  or has five pairs at least, \<open>Find\<close> never panics with unexpected submatches.
\<close>

theorem Find_submatch_check:
  "(erase word off = Inr erased \<and> 2 \<le> length (re p erased) \<and> length (re p erased) < 10
      \<and> re p erased ! 1 - re p erased ! 0 \<noteq> 0 \<and> (n < 0 \<or> int (length ms) < n)
    \<longrightarrow> find_loop p word n ms off = Some (Inl (UnexpectedSubmatches (re p erased))))
   \<and> (erase word off = Inr erased
      \<and> (re p erased = [] \<or> 2 \<le> length (re p erased) \<and> re p erased ! 1 - re p erased ! 0 = 0)
      \<and> (n < 0 \<or> int (length ms) < n)
    \<longrightarrow> find_loop p word n ms off = Some (Inr ms))
   \<and> ((\<forall>s. re p s = [] \<or> 10 \<le> length (re p s))
    \<longrightarrow> Find p word n \<noteq> Some (Inl (UnexpectedSubmatches m)))"
proof (intro conjI impI)
  assume "erase word off = Inr erased \<and> 2 \<le> length (re p erased) \<and> length (re p erased) < 10
      \<and> re p erased ! 1 - re p erased ! 0 \<noteq> 0 \<and> (n < 0 \<or> int (length ms) < n)"
  then show "find_loop p word n ms off = Some (Inl (UnexpectedSubmatches (re p erased)))"
    by (subst find_loop.simps) (auto simp add: find_step_def Let_def)
next
  assume "erase word off = Inr erased
      \<and> (re p erased = [] \<or> 2 \<le> length (re p erased) \<and> re p erased ! 1 - re p erased ! 0 = 0)
      \<and> (n < 0 \<or> int (length ms) < n)"
  then show "find_loop p word n ms off = Some (Inr ms)"
    by (subst find_loop.simps) (auto simp add: find_step_def Let_def)
next
  assume inv: "\<forall>s. re p s = [] \<or> 10 \<le> length (re p s)"
  show "Find p word n \<noteq> Some (Inl (UnexpectedSubmatches m))"
  proof
    assume "Find p word n = Some (Inl (UnexpectedSubmatches m))"
    then have run: "find_loop p word n [] 0 = Some (Inl (UnexpectedSubmatches m))"
      by (simp add: Find_def)
    from find_loop_exit [where I = "\<lambda>ms off. True", OF run]
    obtain ms off where "find_step p word ms off = Panic (UnexpectedSubmatches m)"
      by (auto split: if_splits)
    then show False
      using inv
      by (auto simp add: find_step_def Let_def erase_def slice_def
          split: sum.splits if_splits)
  qed
qed

text \<open>
  The expression \<open>l\<close> without groups on the word \<open>hello\<close> makes \<open>Find\<close> panic, the
  empty expression ends the scan, and the expression \<open>()()l()()\<close> has the groups
  on every text.
\<close>

theorem Find_submatch_check_witness:
  "erase ''hello'' 0 = Inr ''hello'' \<and> re pattern_bare_l ''hello'' = [2, 3]
   \<and> Find pattern_bare_l ''hello'' (- 1) = Some (Inl (UnexpectedSubmatches [2, 3]))
   \<and> re pattern_no_groups ''hello'' = [0, 0]
   \<and> Find pattern_no_groups ''hello'' (- 1) = Some (Inr [])
   \<and> (\<forall>s. re pattern_l s = [] \<or> 10 \<le> length (re pattern_l s))
   \<and> Find pattern_l ''hello'' (- 1) \<noteq> Some (Inl (UnexpectedSubmatches []))"
proof -
  have e: "erase ''hello'' 0 = Inr ''hello''" by (simp add: erase_def)
  have bare: "re pattern_bare_l ''hello'' = [2, 3]" by code_simp
  have none: "re pattern_no_groups ''hello'' = [0, 0]" by (simp add: pattern_no_groups_def empty_re_def)
  have inv: "\<forall>s. re pattern_l s = [] \<or> 10 \<le> length (re pattern_l s)"
    by (simp add: pattern_l_def literal_re_def Let_def split: option.split)
  note inst = Find_submatch_check [where word = "''hello''" and off = 0 and erased = "''hello''"
      and n = "- 1" and ms = "[]" and m = "[]"]
  from inst [where p = pattern_bare_l] e bare
  have "Find pattern_bare_l ''hello'' (- 1) = Some (Inl (UnexpectedSubmatches [2, 3]))"
    by (simp add: Find_def)
  moreover from inst [where p = pattern_no_groups] e none
  have "Find pattern_no_groups ''hello'' (- 1) = Some (Inr [])"
    by (simp add: Find_def)
  moreover from inst [where p = pattern_l] inv
  have "Find pattern_l ''hello'' (- 1) \<noteq> Some (Inl (UnexpectedSubmatches []))"
    by blast
  ultimately show ?thesis using e bare none inv by blast
qed

text \<open>
  C8 as stated fails for a result of zero width: the empty expression on the word
  \<open>hello\<close> gives one pair, fewer than five, and \<open>Find\<close> returns the empty list
  instead of aborting.
\<close>

theorem Find_zero_width_no_abort_counterexample:
  "re pattern_no_groups ''hello'' = [0, 0] \<and> length (re pattern_no_groups ''hello'') < 10
   \<and> Find pattern_no_groups ''hello'' (- 1) = Some (Inr [])"
  by code_simp

section \<open>Properties of the replacer\<close>

lemma replace_loop_first_rule:
  "replace_loop interpolate p word [rp] ms buf offset out =
   replace_loop interpolate p word (rp # rps) ms buf offset out"
  by (induction ms arbitrary: buf offset out) (simp_all add: Let_def split: sum.splits)

lemma replace_loop_stitch:
  "spans_in_order word offset ms \<Longrightarrow>
   \<exists>out' buf' offset'. replace_loop interpolate p word (rp # rps) ms buf offset out =
       (out', Inr (buf', offset'))
     \<and> 0 \<le> offset' \<and> offset' \<le> int (length word)
     \<and> buf' @ drop (nat offset') word = buf @ stitch (interpolate rp p word) word offset ms"
proof (induction ms arbitrary: buf offset out)
  case Nil
  then show ?case by simp
next
  case (Cons m ms)
  from Cons.prems have m: "2 \<le> length m" "0 \<le> offset" "offset \<le> m ! 0"
    "m ! 0 \<le> int (length word)" and rest: "spans_in_order word (m ! 1) ms"
    by simp_all
  from m have sl: "slice word offset (m ! 0) =
      Inr (take (nat (m ! 0 - offset)) (drop (nat offset) word))"
    by (simp add: slice_def)
  from Cons.IH [OF rest, of "buf @ take (nat (m ! 0 - offset)) (drop (nat offset) word)
      @ interpolate rp p word m" "out @ [Println (m ! 0) (m ! 1) rp]"]
  show ?case using m sl by (auto simp add: Let_def)
qed

text \<open>
  What \<open>Replace\<close> returns where it does not panic. When \<open>Find\<close> returns the
  matches and no slice expression is out of range (\<open>spans_in_order\<close>), \<open>Replace\<close>
  with the rules \<open>rp, rps...\<close> returns the one word that the description gives:
  for each match in order the untouched text from the cursor to its start, then
  the text that \<open>rp\<close> interpolates for it, and at the end the rest of the word.
  The rules after the first have no part in any outcome of \<open>Replace\<close>: the call
  with \<open>rp, rps...\<close> is the call with \<open>rp\<close> alone. When \<open>Find\<close> returns no match,
  no rule is read and the word is returned as it is.
\<close>

lemma Replace_stitch_in_order:
  "(Find p word n = Some (Inr matches) \<and> spans_in_order word 0 matches
    \<longrightarrow> (\<exists>out. Replace interpolate p word (rp # rps) n =
          Some (out, Inr [stitch (interpolate rp p word) word 0 matches])))
   \<and> Replace interpolate p word (rp # rps) n = Replace interpolate p word [rp] n
   \<and> (Find p word n = Some (Inr [])
    \<longrightarrow> Replace interpolate p word rules n = Some ([], Inr [word]))"
proof (intro conjI impI)
  assume "Find p word n = Some (Inr [])"
  then show "Replace interpolate p word rules n = Some ([], Inr [word])"
    by (simp add: Replace_def slice_def)
next
  assume a: "Find p word n = Some (Inr matches) \<and> spans_in_order word 0 matches"
  then have "spans_in_order word 0 matches" by simp
  from replace_loop_stitch [OF this, of interpolate p rp rps "[]" "[]"]
  obtain out' buf' offset' where
    "replace_loop interpolate p word (rp # rps) matches [] 0 [] = (out', Inr (buf', offset'))"
    "0 \<le> offset'" "offset' \<le> int (length word)"
    "buf' @ drop (nat offset') word = stitch (interpolate rp p word) word 0 matches"
    by auto
  with a show "\<exists>out. Replace interpolate p word (rp # rps) n =
          Some (out, Inr [stitch (interpolate rp p word) word 0 matches])"
    by (simp add: Replace_def slice_def)
next
  show "Replace interpolate p word (rp # rps) n = Replace interpolate p word [rp] n"
    by (simp add: Replace_def replace_loop_first_rule [where rps = rps]
        split: option.split sum.split)
qed

text \<open>
  C9 at the pattern of a literal dot, the word \<open>a.b\<close> and the rule \<open>L\<close>. With the
  bound \<open>2\<close>, \<open>Find\<close> returns the spans \<open>[1, 2)\<close> and \<open>[0, 1)\<close>. \<open>Replace\<close> writes
  \<open>a\<close> and the replacement of the first match and moves its cursor to \<open>2\<close>; for
  the second match the untouched slice is \<open>word[2:0]\<close>, which panics: no word is
  returned. Unbounded, \<open>Find\<close> does not return and neither does \<open>Replace\<close>.
\<close>

theorem Replace_panics_on_rematch:
  "Find pattern_dot ''a.b'' 2 = Some (Inr [[1, 2], [0, 1]])
   \<and> Replace constant_rule pattern_dot ''a.b'' [''L''] 2 =
       Some ([Println 1 2 ''L''], Inl SliceBoundsOutOfRange)
   \<and> Replace constant_rule pattern_dot ''a.b'' [''L''] (- 1) = None"
proof (intro conjI)
  show "Find pattern_dot ''a.b'' 2 = Some (Inr [[1, 2], [0, 1]])"
    by code_simp
  show "Replace constant_rule pattern_dot ''a.b'' [''L''] 2 =
      Some ([Println 1 2 ''L''], Inl SliceBoundsOutOfRange)"
    by code_simp
  have "find_loop pattern_dot ''a.b'' (- 1) [] 0 = None"
    by (rule find_loop_diverges [where I = "\<lambda>ms off. off \<in> {0, 1, 2}"])
      (simp_all add: pattern_dot_step)
  then show "Replace constant_rule pattern_dot ''a.b'' [''L''] (- 1) = None"
    by (simp add: Replace_def Find_def)
qed

text \<open>
  C10 at the pattern \<open>l\<close>, the word \<open>hello\<close> and the rule \<open>L\<close>: besides the
  returned word \<open>heLLo\<close>, the call writes a line to standard output for each of
  the two matches, by \<open>fmt.Println(start, stop, rp)\<close>.
\<close>

theorem Replace_prints_each_match:
  "Replace constant_rule pattern_l ''hello'' [''L''] (- 1) =
     Some ([Println 2 3 ''L'', Println 3 4 ''L''], Inr [''heLLo''])"
  by code_simp

section \<open>Properties of the variable expander\<close>

lemma scan_lazy_name:
  "CHR ''>'' \<notin> set name \<Longrightarrow> CHR 0x0A \<notin> set name \<Longrightarrow>
   scan_lazy (name @ CHR ''>'' # post) = Some (name, post)"
  by (induction name) auto

lemma reVar_prefix_token:
  assumes "name \<noteq> []" "CHR ''>'' \<notin> set name" "CHR 0x0A \<notin> set name"
  shows "reVar_prefix (CHR ''<'' # name @ CHR ''>'' # post) =
    Some (CHR ''<'' # name @ ''>'', post)"
proof -
  from assms(1) obtain a as where name: "name = a # as" by (cases name) auto
  with assms have "a \<noteq> CHR 0x0A" "CHR ''>'' \<notin> set as" "CHR 0x0A \<notin> set as" by auto
  then show ?thesis
    by (simp add: reVar_prefix_def name scan_lazy_name)
qed

lemma reVar_prefix_other:
  "c \<noteq> CHR ''<'' \<Longrightarrow> reVar_prefix (c # cs) = None"
  by (simp add: reVar_prefix_def split: list.split)

text \<open>Text at no position of which \<open>reVar\<close> matches is copied.\<close>

lemma ReplaceAllStringFunc_copy:
  "\<forall>i<length pre. reVar_prefix (drop i (pre @ s)) = None \<Longrightarrow>
   ReplaceAllStringFunc (pre @ s) repl = pre @ ReplaceAllStringFunc s repl"
proof (induction pre)
  case Nil
  show ?case by simp
next
  case (Cons c pre)
  from Cons.prems have "reVar_prefix (drop 0 ((c # pre) @ s)) = None" by blast
  then have here: "reVar_prefix (c # pre @ s) = None" by simp
  have "\<forall>i<length pre. reVar_prefix (drop i (pre @ s)) = None"
  proof (intro allI impI)
    fix i assume "i < length pre"
    then have "Suc i < length (c # pre)" by simp
    with Cons.prems have "reVar_prefix (drop (Suc i) ((c # pre) @ s)) = None" by blast
    then show "reVar_prefix (drop i (pre @ s)) = None" by simp
  qed
  from Cons.IH [OF this] here show ?case by simp
qed

text \<open>Where the text has no \<open><\<close>, \<open>reVar\<close> matches at none of its positions.\<close>

lemma no_match_without_lt:
  assumes "CHR ''<'' \<notin> set pre"
  shows "\<forall>i<length pre. reVar_prefix (drop i (pre @ s)) = None"
proof (intro allI impI)
  fix i assume i: "i < length pre"
  then obtain c cs where d: "drop i pre = c # cs"
    by (cases "drop i pre") auto
  then have "c \<in> set pre" by (metis in_set_dropD list.set_intros(1))
  with assms have "c \<noteq> CHR ''<''" by auto
  with i d show "reVar_prefix (drop i (pre @ s)) = None"
    by (simp add: reVar_prefix_other)
qed

lemma Trim_token:
  assumes "name \<noteq> []" "CHR ''>'' \<notin> set name"
    and "hd name \<noteq> CHR ''<''" "last name \<noteq> CHR ''<''"
  shows "Trim (CHR ''<'' # name @ ''>'') ''<>'' = name"
proof -
  from assms(1) obtain a as where name: "name = a # as" by (cases name) auto
  from assms(1) obtain b bs where rname: "rev name = b # bs" by (cases "rev name") auto
  with assms(1) have bl: "b = last name" by (metis hd_rev list.sel(1))
  with assms(1,2,4) have b: "b \<noteq> CHR ''<''" "b \<noteq> CHR ''>''"
    by (auto dest: last_in_set)
  from name assms have a: "a \<noteq> CHR ''<''" "a \<noteq> CHR ''>''" by auto
  have "dropWhile (\<lambda>c. c \<in> set ''<>'') (CHR ''<'' # name @ ''>'') = name @ ''>''"
    using a by (simp add: name)
  moreover have "dropWhile (\<lambda>c. c \<in> set ''<>'') (rev (name @ ''>'')) = rev name"
    using b by (simp add: rname)
  ultimately show ?thesis by (simp add: Trim_def)
qed

text \<open>
  C7, as the code has it. A token is what \<open>reVar\<close> matches, and the name looked up
  is the token with every \<open><\<close> and \<open>>\<close> at its two ends trimmed. So take an
  expression \<open>pre <name> post\<close> in which \<open>reVar\<close> matches at no position of \<open>pre\<close>
  (as when \<open>pre\<close> has no \<open><\<close>), with a name that is not empty, has no \<open>>\<close> and no
  line feed, and neither begins nor ends with \<open><\<close>. Then the token \<open><name>\<close> is
  replaced by \<open>(?:\<close>, the values of the name in the order of the table, each one
  escaped by \<open>QuoteMeta\<close>, with \<open>|\<close> between them, and \<open>)\<close>; \<open>pre\<close> is copied and
  \<open>post\<close> is expanded in the same way. A name that the table does not have gives
  the empty alternation \<open>(?:)\<close>. The function has no error result: it is total.
\<close>

theorem expandVars_token:
  assumes "\<forall>i<length pre. reVar_prefix (drop i (pre @ ''<'' @ name @ ''>'' @ post)) = None"
    and "name \<noteq> []" and "CHR ''>'' \<notin> set name" and "CHR 0x0A \<notin> set name"
    and "hd name \<noteq> CHR ''<''" and "last name \<noteq> CHR ''<''"
  shows "expandVars (pre @ ''<'' @ name @ ''>'' @ post) vars =
      pre @ ''(?:''
        @ Join (map QuoteMeta (case vars name of None \<Rightarrow> [] | Some vals \<Rightarrow> vals)) ''|''
        @ '')'' @ expandVars post vars
    \<and> (vars name = None \<longrightarrow>
        expandVars (pre @ ''<'' @ name @ ''>'' @ post) vars =
          pre @ ''(?:)'' @ expandVars post vars)"
proof -
  have tok: "reVar_prefix (CHR ''<'' # name @ CHR ''>'' # post) =
      Some (CHR ''<'' # name @ ''>'', post)"
    using assms by (simp add: reVar_prefix_token)
  have tr: "Trim (CHR ''<'' # name @ ''>'') ''<>'' = name"
    using assms by (simp add: Trim_token)
  have "ReplaceAllStringFunc (pre @ ''<'' @ name @ ''>'' @ post) repl =
      pre @ ReplaceAllStringFunc (''<'' @ name @ ''>'' @ post) repl" for repl
    using assms(1) by (rule ReplaceAllStringFunc_copy)
  then have "expandVars (pre @ ''<'' @ name @ ''>'' @ post) vars =
      pre @ ''(?:''
        @ Join (map QuoteMeta (case vars name of None \<Rightarrow> [] | Some vals \<Rightarrow> vals)) ''|''
        @ '')'' @ expandVars post vars"
    by (simp add: expandVars_def tok getVar_def tr)
  then show ?thesis by simp
qed

text \<open>
  With \<open>v = ["a", "bb"]\<close> and no \<open>w\<close>, \<open>x<v>y<w>\<close> expands to \<open>x(?:a|bb)y(?:)\<close>;
  the dot of the value \<open>a.b\<close> is escaped with a backslash.
\<close>

theorem expandVars_token_witness:
  "length ''x'' = 1 \<and> reVar_prefix (drop 0 (''x'' @ ''<'' @ ''v'' @ ''>'' @ ''y<w>'')) = None
   \<and> ''v'' \<noteq> [] \<and> CHR ''>'' \<notin> set ''v'' \<and> CHR 0x0A \<notin> set ''v''
   \<and> hd ''v'' \<noteq> CHR ''<'' \<and> last ''v'' \<noteq> CHR ''<''
   \<and> vars_v ''v'' = Some [''a'', ''bb''] \<and> vars_v ''w'' = None
   \<and> expandVars ''x<v>y<w>'' vars_v = ''x(?:a|bb)y(?:)''
   \<and> expandVars ''<p>'' vars_v = ''(?:a'' @ [CHR 0x5C] @ ''.b|c)''"
proof -
  have v: "vars_v ''v'' = Some [''a'', ''bb'']" and w: "vars_v ''w'' = None"
    and p: "vars_v ''p'' = Some [''a.b'', ''c'']"
    by (simp_all add: vars_v_def)
  have x: "\<forall>i<length ''x''. reVar_prefix (drop i (''x'' @ ''<'' @ ''v'' @ ''>'' @ ''y<w>'')) = None"
    by (rule no_match_without_lt) simp
  have y: "\<forall>i<length ''y''. reVar_prefix (drop i (''y'' @ ''<'' @ ''w'' @ ''>'' @ [])) = None"
    by (rule no_match_without_lt) simp
  from expandVars_token [of "''y''" "''w''" "[]" vars_v, OF y] w
  have "expandVars ''y<w>'' vars_v = ''y(?:)''"
    by (simp add: expandVars_def)
  with expandVars_token [of "''x''" "''v''" "''y<w>''" vars_v, OF x] v
  have "expandVars ''x<v>y<w>'' vars_v = ''x(?:a|bb)y(?:)''"
    by (simp add: QuoteMeta_def special_def)
  moreover from expandVars_token [of "[]" "''p''" "[]" vars_v] p
  have "expandVars ''<p>'' vars_v = ''(?:a'' @ [CHR 0x5C] @ ''.b|c)''"
    by (simp add: QuoteMeta_def special_def expandVars_def)
  moreover have "reVar_prefix (drop 0 (''x'' @ ''<'' @ ''v'' @ ''>'' @ ''y<w>'')) = None"
    using x by simp
  ultimately show ?thesis using v w by simp
qed

text \<open>
  C7 as stated fails for an occurrence of \<open><name>\<close> outside these conditions; the
  table is \<open>v = ["a", "bb"]\<close>, \<open>p = ["a.b", "c"]\<close>. A token that begins earlier
  swallows the occurrence: in \<open>x<y <v>\<close> the token is \<open><y <v>\<close>, and \<open><v>\<close> is not
  replaced by the values of \<open>v\<close>. An empty name and a name with a line feed are no
  tokens: \<open><>\<close> and \<open><v\<close>, line feed, \<open>w>\<close> stay as they are. A \<open>>\<close> ends the token, so
  \<open><v>w>\<close> is the token \<open><v>\<close> and the text \<open>w>\<close>. A \<open><\<close> at either end of the
  name is trimmed before the lookup: \<open><<v>\<close> and \<open><v<>\<close> are replaced by the values
  of \<open>v\<close>, not by those of \<open><v\<close> or \<open>v<\<close>.
\<close>

theorem expandVars_stray_bracket_counterexample:
  "vars_v ''v'' = Some [''a'', ''bb'']
   \<and> expandVars ''x<y <v>'' vars_v = ''x(?:)''
   \<and> expandVars ''<>'' vars_v = ''<>''
   \<and> expandVars (''<v'' @ [CHR 0x0A] @ ''w>'') vars_v = ''<v'' @ [CHR 0x0A] @ ''w>''
   \<and> expandVars ''<v>w>'' vars_v = ''(?:a|bb)w>''
   \<and> expandVars ''<<v>'' vars_v = ''(?:a|bb)''
   \<and> expandVars ''<v<>'' vars_v = ''(?:a|bb)''"
  by code_simp

text \<open>
  C6 at the expression \<open><v>\<close> with \<open>v = ["a", "bb"]\<close>: the result of \<open>expandVars\<close>
  is the rewritten expression and nothing else. The value lists that were
  substituted are not returned, though \<open>NewPattern\<close> binds two results of the call,
  \<open>reExpr, usedVars := expandVars(reExpr, vars)\<close>.
\<close>

theorem expandVars_returns_expression_only:
  "expandVars ''<v>'' vars_v = ''(?:a|bb)''"
  by code_simp

end
